theory Spec2Isabelle
  imports Main "HOL-Library.Sublist"
begin

section \<open>JavaScript values\<close>

text \<open>
  The decorated methods of \<open>src/index.ts\<close> receive \<open>...args: any[]\<close>. The embedding
  covers the values \<open>undefined\<close>, \<open>null\<close>, booleans, integral numbers, strings and plain
  objects (own enumerable properties in enumeration order, keys pairwise distinct).
  \<open>Num n\<close> stands for the number \<open>n\<close> where it is exactly representable and printed in
  plain decimal (magnitude below \<open>2\<^sup>5\<^sup>3\<close>); for larger \<open>n\<close> the decimal text below is not what
  JavaScript prints. Strings are sequences of code units below 256.
  Arrays, functions, symbols, \<open>NaN\<close> and non-integral numbers are outside the value model.
\<close>

datatype jsval =
    Undefined
  | Null
  | Bool bool
  | Num int
  | Str string
  | Obj "(string \<times> jsval) list"

text \<open>\<open>args[i]\<close>: reading past the end of the argument array yields \<open>undefined\<close>.\<close>

definition arg :: "jsval list \<Rightarrow> nat \<Rightarrow> jsval" where
  "arg args i = (if i < length args then args ! i else Undefined)"

text \<open>ToBoolean, as used by \<open>filter(p => args[p.parameterIndex])\<close>.\<close>

fun truthy :: "jsval \<Rightarrow> bool" where
  "truthy Undefined = False"
| "truthy Null = False"
| "truthy (Bool b) = b"
| "truthy (Num n) = (n \<noteq> 0)"
| "truthy (Str s) = (s \<noteq> [])"
| "truthy (Obj kvs) = True"

text \<open>\<open>value instanceof Object\<close>.\<close>

fun instanceof_Object :: "jsval \<Rightarrow> bool" where
  "instanceof_Object (Obj kvs) = True"
| "instanceof_Object v = False"

subsection \<open>Decimal rendering of integral numbers\<close>

definition digit_char :: "nat \<Rightarrow> char" where
  "digit_char d = char_of (48 + d)"

fun nat_to_string :: "nat \<Rightarrow> string" where
  "nat_to_string n =
     (if n < 10 then [digit_char n] else nat_to_string (n div 10) @ [digit_char (n mod 10)])"

declare nat_to_string.simps [simp del]

definition int_to_string :: "int \<Rightarrow> string" where
  "int_to_string i =
     (if i < 0 then CHR ''-'' # nat_to_string (nat (- i)) else nat_to_string (nat i))"

text \<open>ToString, as applied by string concatenation, \<open>String.prototype.replace\<close> and
  \<open>encodeURIComponent\<close> to a non-string operand.\<close>

fun to_string :: "jsval \<Rightarrow> string" where
  "to_string Undefined = ''undefined''"
| "to_string Null = ''null''"
| "to_string (Bool b) = (if b then ''true'' else ''false'')"
| "to_string (Num n) = int_to_string n"
| "to_string (Str s) = s"
| "to_string (Obj kvs) = ''[object Object]''"

subsection \<open>\<open>JSON.stringify\<close>\<close>

definition hex_digit :: "nat \<Rightarrow> char" where
  "hex_digit d = (if d < 10 then char_of (48 + d) else char_of (55 + d))"

definition hex_digit_lower :: "nat \<Rightarrow> char" where
  "hex_digit_lower d = (if d < 10 then char_of (48 + d) else char_of (87 + d))"

text \<open>QuoteJSONString on one code unit.\<close>

definition json_escape_char :: "char \<Rightarrow> string" where
  "json_escape_char c =
     (if c = CHR 0x22 then [CHR 0x5C, CHR 0x22]
      else if c = CHR 0x5C then [CHR 0x5C, CHR 0x5C]
      else if c = CHR 0x08 then [CHR 0x5C, CHR ''b'']
      else if c = CHR 0x0C then [CHR 0x5C, CHR ''f'']
      else if c = CHR 0x0A then [CHR 0x5C, CHR ''n'']
      else if c = CHR 0x0D then [CHR 0x5C, CHR ''r'']
      else if c = CHR 0x09 then [CHR 0x5C, CHR ''t'']
      else if (of_char c :: nat) < 32
        then [CHR 0x5C, CHR ''u'', CHR ''0'', CHR ''0'',
              hex_digit_lower (of_char c div 16), hex_digit_lower (of_char c mod 16)]
      else [c])"

definition json_quote :: "string \<Rightarrow> string" where
  "json_quote s = CHR 0x22 # concat (map json_escape_char s) @ [CHR 0x22]"

fun join_with :: "string \<Rightarrow> string list \<Rightarrow> string" where
  "join_with sep [] = []"
| "join_with sep [x] = x"
| "join_with sep (x # y # ys) = x @ sep @ join_with sep (y # ys)"

text \<open>
  \<open>JSON.stringify(v)\<close> returns \<open>undefined\<close> (here \<open>None\<close>) for \<open>undefined\<close>; a property whose
  value serialises to \<open>undefined\<close> is left out of its object.
\<close>

fun json_stringify :: "jsval \<Rightarrow> string option"
  and json_members :: "(string \<times> jsval) list \<Rightarrow> string list" where
  "json_stringify Undefined = None"
| "json_stringify Null = Some ''null''"
| "json_stringify (Bool b) = Some (if b then ''true'' else ''false'')"
| "json_stringify (Num n) = Some (int_to_string n)"
| "json_stringify (Str s) = Some (json_quote s)"
| "json_stringify (Obj kvs) = Some (''{'' @ join_with '','' (json_members kvs) @ ''}'')"
| "json_members [] = []"
| "json_members (kv # kvs) =
     (case json_stringify (snd kv) of
        None \<Rightarrow> json_members kvs
      | Some s \<Rightarrow> (json_quote (fst kv) @ '':'' @ s) # json_members kvs)"

definition JSON_stringify :: "jsval \<Rightarrow> jsval" where
  "JSON_stringify v = (case json_stringify v of None \<Rightarrow> Undefined | Some s \<Rightarrow> Str s)"

subsection \<open>\<open>encodeURIComponent\<close>\<close>

definition uri_unreserved :: "char \<Rightarrow> bool" where
  "uri_unreserved c \<longleftrightarrow>
     c \<in> set (''ABCDEFGHIJKLMNOPQRSTUVWXYZabcdefghijklmnopqrstuvwxyz0123456789-_.!~*()''
              @ [CHR 0x27])"

definition percent_byte :: "nat \<Rightarrow> string" where
  "percent_byte b = [CHR ''%'', hex_digit (b div 16), hex_digit (b mod 16)]"

text \<open>A code unit below 128 is one UTF-8 octet, one from 128 to 255 is two.\<close>

definition encode_char :: "char \<Rightarrow> string" where
  "encode_char c =
     (if uri_unreserved c then [c]
      else if (of_char c :: nat) < 128 then percent_byte (of_char c)
      else percent_byte (192 + of_char c div 64) @ percent_byte (128 + of_char c mod 64))"

definition encodeURIComponent :: "jsval \<Rightarrow> string" where
  "encodeURIComponent v = concat (map encode_char (to_string v))"

subsection \<open>\<open>String.prototype.replace\<close> with a string pattern\<close>

text \<open>The first occurrence of \<open>pat\<close> in \<open>s\<close>: the text before it and the text after it.\<close>

fun split_first :: "string \<Rightarrow> string \<Rightarrow> (string \<times> string) option" where
  "split_first pat [] = (if pat = [] then Some ([], []) else None)"
| "split_first pat (c # cs) =
     (if prefix pat (c # cs) then Some ([], drop (length pat) (c # cs))
      else case split_first pat cs of
             None \<Rightarrow> None
           | Some (b, a) \<Rightarrow> Some (c # b, a))"

text \<open>
  GetSubstitution for a match without captures: in the replacement text \<open>$$\<close> stands for
  \<open>$\<close>, \<open>$&\<close> for the matched text, \<open>$`\<close> for the text before the match and \<open>$'\<close> for the
  text after it; every other character stands for itself.
\<close>

fun get_substitution :: "string \<Rightarrow> string \<Rightarrow> string \<Rightarrow> string \<Rightarrow> string" where
  "get_substitution matched pre post [] = []"
| "get_substitution matched pre post [c] = [c]"
| "get_substitution matched pre post (c # d # r) =
     (if c = CHR ''$'' \<and> d = CHR ''$'' then CHR ''$'' # get_substitution matched pre post r
      else if c = CHR ''$'' \<and> d = CHR ''&'' then matched @ get_substitution matched pre post r
      else if c = CHR ''$'' \<and> d = CHR 0x60 then pre @ get_substitution matched pre post r
      else if c = CHR ''$'' \<and> d = CHR 0x27 then post @ get_substitution matched pre post r
      else c # get_substitution matched pre post (d # r))"

definition js_replace :: "string \<Rightarrow> string \<Rightarrow> jsval \<Rightarrow> string" where
  "js_replace s pat replaceValue =
     (case split_first pat s of
        None \<Rightarrow> s
      | Some (b, a) \<Rightarrow> b @ get_substitution pat b a (to_string replaceValue) @ a)"

section \<open>Library objects built by a call\<close>

text \<open>
  \<open>Headers\<close> (imported as \<open>AngularHeaders\<close>) and \<open>URLSearchParams\<close> are not code of the
  repository. They are modelled by what the methods called in \<open>src/index.ts\<close> are documented
  to do: header names are compared without regard to case, \<open>append\<close> appends a value to the
  list of values of a header, \<open>set\<close> on search parameters replaces the value of a name.
\<close>

subsection \<open>\<open>Headers\<close> of \<open>@angular/http\<close>\<close>

text \<open>\<open>String.prototype.toLowerCase\<close> on code units below 256.\<close>

definition lower_char :: "char \<Rightarrow> char" where
  "lower_char c =
     (if (65 \<le> (of_char c :: nat) \<and> (of_char c :: nat) \<le> 90)
         \<or> (192 \<le> (of_char c :: nat) \<and> (of_char c :: nat) \<le> 222 \<and> (of_char c :: nat) \<noteq> 215)
      then char_of ((of_char c :: nat) + 32) else c)"

definition toLowerCase :: "string \<Rightarrow> string" where
  "toLowerCase s = map lower_char s"

text \<open>
  A \<open>Headers\<close> object keeps, per lower-cased header name and in insertion order, the name
  as first written and the list of the header's values.
\<close>

type_synonym Headers = "(string \<times> string \<times> jsval list) list"

definition headers_delete :: "string \<Rightarrow> Headers \<Rightarrow> Headers" where
  "headers_delete name hs = filter (\<lambda>e. fst e \<noteq> toLowerCase name) hs"

text \<open>\<open>append(name, value)\<close> adds \<open>value\<close> to the values the header already has.\<close>

definition headers_append :: "string \<Rightarrow> jsval \<Rightarrow> Headers \<Rightarrow> Headers" where
  "headers_append name v hs =
     (case map_of hs (toLowerCase name) of
        None \<Rightarrow> hs @ [(toLowerCase name, name, [v])]
      | Some (shown, vs) \<Rightarrow>
          map (\<lambda>e. if fst e = toLowerCase name then (fst e, shown, vs @ [v]) else e) hs)"

text \<open>\<open>new Headers(obj)\<close>: nothing for \<open>null\<close>; otherwise each own key of \<open>obj\<close> is deleted
  and then appended with its value.\<close>

definition new_Headers :: "(string \<times> jsval) list option \<Rightarrow> Headers" where
  "new_Headers init =
     (case init of
        None \<Rightarrow> []
      | Some obj \<Rightarrow> fold (\<lambda>kv hs. headers_append (fst kv) (snd kv) (headers_delete (fst kv) hs)) obj [])"

text \<open>The values of a header, \<open>[]\<close> when the header is not there.\<close>

definition header_values :: "Headers \<Rightarrow> string \<Rightarrow> jsval list" where
  "header_values hs name =
     (case map_of hs (toLowerCase name) of None \<Rightarrow> [] | Some (shown, vs) \<Rightarrow> vs)"

subsection \<open>\<open>URLSearchParams\<close>\<close>

type_synonym URLSearchParams = "(string \<times> string) list"

text \<open>\<open>set(name, value)\<close>: the first pair named \<open>name\<close> gets the value and the other pairs
  of that name go; without such a pair a new one is added at the end.\<close>

fun search_set :: "string \<Rightarrow> string \<Rightarrow> URLSearchParams \<Rightarrow> URLSearchParams" where
  "search_set k v [] = [(k, v)]"
| "search_set k v (e # r) =
     (if fst e = k then (k, v) # filter (\<lambda>e'. fst e' \<noteq> k) r else e # search_set k v r)"

section \<open>The program\<close>

subsection \<open>Parameter decorators\<close>

record param =
  key :: string
  parameterIndex :: nat

text \<open>
  The decoration target, restricted to the properties the decorators write: a metadata
  key is either not set (\<open>undefined\<close>) or holds an array of \<open>{key, parameterIndex}\<close> objects.
  A target is one flat object: a list found through the prototype chain of a parent
  class is the list of the target here, and what parent and subclass share is not told
  apart.
\<close>

type_synonym target = "string \<rightharpoonup> param list"

definition metadataKey :: "string \<Rightarrow> string \<Rightarrow> string" where
  "metadataKey propertyKey paramName = propertyKey @ ''_'' @ paramName @ ''_parameters''"

definition paramBuilder :: "string \<Rightarrow> string \<Rightarrow> string \<Rightarrow> nat \<Rightarrow> target \<Rightarrow> target" where
  "paramBuilder paramName k propertyKey i tgt =
     (let paramObj = \<lparr>key = k, parameterIndex = i\<rparr> in
      case tgt (metadataKey propertyKey paramName) of
        Some ps \<Rightarrow> tgt(metadataKey propertyKey paramName \<mapsto> ps @ [paramObj])
      | None \<Rightarrow> tgt(metadataKey propertyKey paramName \<mapsto> [paramObj]))"

definition Path :: "string \<Rightarrow> string \<Rightarrow> nat \<Rightarrow> target \<Rightarrow> target" where
  "Path = paramBuilder ''Path''"

definition Query :: "string \<Rightarrow> string \<Rightarrow> nat \<Rightarrow> target \<Rightarrow> target" where
  "Query = paramBuilder ''Query''"

definition Body :: "string \<Rightarrow> nat \<Rightarrow> target \<Rightarrow> target" where
  "Body = paramBuilder ''Body'' ''Body''"

definition Header :: "string \<Rightarrow> string \<Rightarrow> nat \<Rightarrow> target \<Rightarrow> target" where
  "Header = paramBuilder ''Header''"

text \<open>A run of registrations \<open>(key, parameterIndex)\<close> by one parameter decorator on one
  method, first to last.\<close>

definition register_all :: "string \<Rightarrow> string \<Rightarrow> (string \<times> nat) list \<Rightarrow> target \<Rightarrow> target" where
  "register_all paramName propertyKey regs tgt =
     fold (\<lambda>r. paramBuilder paramName (fst r) propertyKey (snd r)) regs tgt"

text \<open>The list a metadata key holds, empty when the key is not set.\<close>

definition params_of :: "target \<Rightarrow> string \<Rightarrow> param list" where
  "params_of tgt mk = (case tgt mk of None \<Rightarrow> [] | Some ps \<Rightarrow> ps)"

subsection \<open>Method decorators \<open>Headers\<close> and \<open>Produces\<close>\<close>

datatype MediaType = JSON

text \<open>The fields the decorators put on a method's property descriptor: \<open>d_headers\<close> is
  \<open>descriptor.headers\<close>, \<open>undefined\<close> on a method without \<open>@Headers\<close>, and \<open>isJSON\<close> is falsy
  on a method without \<open>@Produces\<close>. The call reads both when it runs, so a descriptor
  here is the descriptor after all the method's decorators.\<close>

record descriptor =
  d_headers :: "(string \<times> jsval) list option"
  isJSON :: bool

definition Headers_decorator :: "(string \<times> jsval) list \<Rightarrow> descriptor \<Rightarrow> descriptor" where
  "Headers_decorator headersDef d = d\<lparr>d_headers := Some headersDef\<rparr>"

definition Produces :: "MediaType \<Rightarrow> descriptor \<Rightarrow> descriptor" where
  "Produces producesDef d = d\<lparr>isJSON := (producesDef = JSON)\<rparr>"

subsection \<open>The request a call builds\<close>

datatype RequestMethod = Get | Post | Put | Delete | Options | Head | Patch

text \<open>
  The fields handed to \<open>new RequestOptions({method, url, headers, body, search})\<close>. What
  the library's \<open>Request\<close> constructor makes of them is library code.
\<close>

record RequestOptions =
  "method" :: RequestMethod
  url :: string
  headers :: Headers
  body :: jsval
  search :: URLSearchParams

datatype error = TypeError

text \<open>Lines 193 to 197. \<open>pBody[0].parameterIndex\<close> on an empty array reads a property of
  \<open>undefined\<close>.\<close>

definition compile_body :: "param list option \<Rightarrow> jsval list \<Rightarrow> error + jsval" where
  "compile_body pBody args =
     (case pBody of
        None \<Rightarrow> Inr Null
      | Some [] \<Rightarrow> Inl TypeError
      | Some (p # ps) \<Rightarrow> Inr (JSON_stringify (arg args (parameterIndex p))))"

text \<open>Lines 199 to 207.\<close>

definition compile_path :: "param list option \<Rightarrow> string \<Rightarrow> jsval list \<Rightarrow> string" where
  "compile_path pPath template args =
     (case pPath of
        None \<Rightarrow> template
      | Some ps \<Rightarrow>
          fold (\<lambda>p resUrl. js_replace resUrl (''{'' @ key p @ ''}'') (arg args (parameterIndex p)))
            ps template)"

text \<open>Lines 209 to 223.\<close>

definition query_value :: "jsval \<Rightarrow> jsval" where
  "query_value v = (if instanceof_Object v then JSON_stringify v else v)"

definition compile_query :: "param list option \<Rightarrow> jsval list \<Rightarrow> URLSearchParams" where
  "compile_query pQuery args =
     (case pQuery of
        None \<Rightarrow> []
      | Some ps \<Rightarrow>
          fold (\<lambda>p s. search_set (encodeURIComponent (Str (key p)))
                         (encodeURIComponent (query_value (arg args (parameterIndex p)))) s)
            (filter (\<lambda>p. truthy (arg args (parameterIndex p))) ps) [])"

text \<open>Lines 225 to 241.\<close>

definition compile_headers ::
  "(string \<times> jsval) list option \<Rightarrow> (string \<times> jsval) list option \<Rightarrow> param list option
     \<Rightarrow> jsval list \<Rightarrow> Headers" where
  "compile_headers defaults static pHeader args =
     (let h0 = new_Headers defaults;
          h1 = (case static of
                  None \<Rightarrow> h0
                | Some obj \<Rightarrow> fold (\<lambda>kv hs. headers_append (fst kv) (snd kv) hs) obj h0)
      in case pHeader of
           None \<Rightarrow> h1
         | Some ps \<Rightarrow>
             fold (\<lambda>p hs. headers_append (key p) (arg args (parameterIndex p)) hs) ps h1)"

subsection \<open>The client and the decorated method\<close>

text \<open>
  A client: the results of its accessors \<open>getBaseUrl()\<close> and \<open>getDefaultHeaders()\<close>, its two
  interceptors, and the injected \<open>http\<close>. The interceptors and \<open>http.request\<close> are methods
  that may act on the client and on the world outside, a state \<open>'w\<close> that is passed
  through them. The request interceptor's return value is dropped by the caller, so it
  is given by the state it leaves the request in. An observable is the sequence of
  values it emits; \<open>res_json\<close> is \<open>res.json()\<close> on an emitted value.
\<close>

record ('r, 'w) RESTClient =
  getBaseUrl :: jsval
  getDefaultHeaders :: "(string \<times> jsval) list option"
  requestInterceptor :: "RequestOptions \<Rightarrow> 'w \<Rightarrow> RequestOptions \<times> 'w"
  http_request :: "RequestOptions \<Rightarrow> 'w \<Rightarrow> 'r list \<times> 'w"
  res_json :: "'r \<Rightarrow> 'r"
  responseInterceptor :: "'r list \<Rightarrow> 'w \<Rightarrow> 'r list \<times> 'w"

text \<open>The class \<open>RESTClient\<close> as declared, lines 49 to 83, around a given \<open>http\<close>.\<close>

definition base_client ::
  "(RequestOptions \<Rightarrow> 'w \<Rightarrow> 'r list \<times> 'w) \<Rightarrow> ('r \<Rightarrow> 'r) \<Rightarrow> ('r, 'w) RESTClient" where
  "base_client http js =
     \<lparr>getBaseUrl = Null, getDefaultHeaders = None, requestInterceptor = (\<lambda>req w. (req, w)),
      http_request = http, res_json = js, responseInterceptor = (\<lambda>res w. (res, w))\<rparr>"

text \<open>The class decorators replace an accessor.\<close>

definition BaseUrl :: "string \<Rightarrow> ('r, 'w) RESTClient \<Rightarrow> ('r, 'w) RESTClient" where
  "BaseUrl u c = c\<lparr>getBaseUrl := Str u\<rparr>"

definition DefaultHeaders ::
  "(string \<times> jsval) list \<Rightarrow> ('r, 'w) RESTClient \<Rightarrow> ('r, 'w) RESTClient" where
  "DefaultHeaders hs c = c\<lparr>getDefaultHeaders := Some hs\<rparr>"

text \<open>Lines 191 to 252: the request of a call, from the four parameter lists read off
  the target when the method was decorated.\<close>

definition compile ::
  "RequestMethod \<Rightarrow> string \<Rightarrow> target \<Rightarrow> string \<Rightarrow> descriptor \<Rightarrow> ('r, 'w) RESTClient
     \<Rightarrow> jsval list \<Rightarrow> error + RequestOptions" where
  "compile m template tgt propertyKey d this args =
     (let pPath = tgt (metadataKey propertyKey ''Path'');
          pQuery = tgt (metadataKey propertyKey ''Query'');
          pBody = tgt (metadataKey propertyKey ''Body'');
          pHeader = tgt (metadataKey propertyKey ''Header'')
      in case compile_body pBody args of
           Inl e \<Rightarrow> Inl e
         | Inr b \<Rightarrow>
             Inr \<lparr>method = m,
                  url = to_string (getBaseUrl this) @ compile_path pPath template args,
                  headers = compile_headers (getDefaultHeaders this) (d_headers d) pHeader args,
                  body = b,
                  search = compile_query pQuery args\<rparr>)"

text \<open>Lines 191 to 268: the whole decorated method, run in the world \<open>w\<close>.\<close>

definition methodBuilder ::
  "RequestMethod \<Rightarrow> string \<Rightarrow> target \<Rightarrow> string \<Rightarrow> descriptor \<Rightarrow> ('r, 'w) RESTClient
     \<Rightarrow> jsval list \<Rightarrow> 'w \<Rightarrow> (error + 'r list) \<times> 'w" where
  "methodBuilder m template tgt propertyKey d this args w =
     (case compile m template tgt propertyKey d this args of
        Inl e \<Rightarrow> (Inl e, w)
      | Inr options \<Rightarrow>
          (let (req, w1) = requestInterceptor this options w;
               (observable, w2) = http_request this req w1;
               observable' = (if isJSON d then map (res_json this) observable else observable);
               (res, w3) = responseInterceptor this observable' w2
           in (Inr res, w3)))"

text \<open>The own enumerable properties a \<open>for ... in\<close> loop with \<open>hasOwnProperty\<close> visits;
  none for \<open>undefined\<close>.\<close>

definition own_properties :: "(string \<times> jsval) list option \<Rightarrow> (string \<times> jsval) list" where
  "own_properties obj = (case obj of None \<Rightarrow> [] | Some kvs \<Rightarrow> kvs)"

subsection \<open>A client that records what its methods see\<close>

text \<open>
  A subclass whose interceptors and transport write to a log, the world state: the
  request interceptor sets the request's body and logs the URL it was given, the
  transport answers with the body it was sent, \<open>json()\<close> tags a response, and the
  response interceptor logs what it receives.
\<close>

definition logging_client :: "(string, string list) RESTClient" where
  "logging_client =
     \<lparr>getBaseUrl = Str ''https://api.test'', getDefaultHeaders = None,
      requestInterceptor = (\<lambda>req w. (req\<lparr>body := Str ''seen''\<rparr>, w @ [''pre:'' @ url req])),
      http_request = (\<lambda>req w. ([to_string (body req)], w @ [''send:'' @ to_string (body req)])),
      res_json = (\<lambda>r. ''json:'' @ r),
      responseInterceptor = (\<lambda>res w. (res, w @ ''post:'' # res))\<rparr>"

section \<open>The objects a call creates\<close>

text \<open>
  A call creates three objects with \<open>new\<close>: the \<open>URLSearchParams\<close>, the \<open>Headers\<close> and the
  options object that refers to both. To speak about their identity the store is made
  explicit: references are numbers, \<open>new\<close> takes the next unused one, and \<open>set\<close> and
  \<open>append\<close> update the object at a reference in place. Argument values stay values of
  the embedding; they have no identity of their own.
\<close>

type_synonym ref = nat

datatype hobj =
    HeadersObj Headers
  | SearchObj URLSearchParams
  | OptionsObj RequestMethod string ref jsval ref

record heap =
  store :: "ref \<rightharpoonup> hobj"
  next_ref :: ref

definition new :: "hobj \<Rightarrow> heap \<Rightarrow> ref \<times> heap" where
  "new ob h = (next_ref h, \<lparr>store = (store h)(next_ref h \<mapsto> ob), next_ref = Suc (next_ref h)\<rparr>)"

definition put :: "ref \<Rightarrow> hobj \<Rightarrow> heap \<Rightarrow> heap" where
  "put r ob h = \<lparr>store = (store h)(r \<mapsto> ob), next_ref = next_ref h\<rparr>"

definition search_set_at :: "ref \<Rightarrow> string \<Rightarrow> string \<Rightarrow> heap \<Rightarrow> heap" where
  "search_set_at r k v h =
     (case store h r of
        Some (SearchObj s) \<Rightarrow> put r (SearchObj (search_set k v s)) h
      | _ \<Rightarrow> h)"

definition headers_append_at :: "ref \<Rightarrow> string \<Rightarrow> jsval \<Rightarrow> heap \<Rightarrow> heap" where
  "headers_append_at r name v h =
     (case store h r of
        Some (HeadersObj hs) \<Rightarrow> put r (HeadersObj (headers_append name v hs)) h
      | _ \<Rightarrow> h)"

text \<open>Lines 211 to 223, on the \<open>URLSearchParams\<close> object at \<open>search_ref\<close>.\<close>

definition query_phase :: "param list option \<Rightarrow> jsval list \<Rightarrow> ref \<Rightarrow> heap \<Rightarrow> heap" where
  "query_phase pQuery args search_ref h =
     (case pQuery of
        None \<Rightarrow> h
      | Some ps \<Rightarrow>
          fold (\<lambda>p. search_set_at search_ref (encodeURIComponent (Str (key p)))
                      (encodeURIComponent (query_value (arg args (parameterIndex p)))))
            (filter (\<lambda>p. truthy (arg args (parameterIndex p))) ps) h)"

text \<open>Lines 229 to 241, on the \<open>Headers\<close> object at \<open>headers_ref\<close>.\<close>

definition headers_phase ::
  "(string \<times> jsval) list option \<Rightarrow> param list option \<Rightarrow> jsval list \<Rightarrow> ref \<Rightarrow> heap \<Rightarrow> heap" where
  "headers_phase static pHeader args headers_ref h =
     (let h1 = (case static of
                  None \<Rightarrow> h
                | Some obj \<Rightarrow> fold (\<lambda>kv. headers_append_at headers_ref (fst kv) (snd kv)) obj h)
      in case pHeader of
           None \<Rightarrow> h1
         | Some ps \<Rightarrow>
             fold (\<lambda>p. headers_append_at headers_ref (key p) (arg args (parameterIndex p))) ps h1)"

text \<open>Lines 191 to 250 with their allocations: the call returns the reference of the
  options object it made.\<close>

definition compile_new ::
  "RequestMethod \<Rightarrow> string \<Rightarrow> target \<Rightarrow> string \<Rightarrow> descriptor \<Rightarrow> ('r, 'w) RESTClient
     \<Rightarrow> jsval list \<Rightarrow> heap \<Rightarrow> (error + ref) \<times> heap" where
  "compile_new m template tgt propertyKey d this args h =
     (let pPath = tgt (metadataKey propertyKey ''Path'');
          pQuery = tgt (metadataKey propertyKey ''Query'');
          pBody = tgt (metadataKey propertyKey ''Body'');
          pHeader = tgt (metadataKey propertyKey ''Header'')
      in case compile_body pBody args of
           Inl e \<Rightarrow> (Inl e, h)
         | Inr b \<Rightarrow>
             (let resUrl = compile_path pPath template args;
                  (search_ref, h1) = new (SearchObj []) h;
                  h2 = query_phase pQuery args search_ref h1;
                  (headers_ref, h3) = new (HeadersObj (new_Headers (getDefaultHeaders this))) h2;
                  h4 = headers_phase (d_headers d) pHeader args headers_ref h3;
                  (options, h5) = new (OptionsObj m (to_string (getBaseUrl this) @ resUrl)
                                         headers_ref b search_ref) h4
              in (Inr options, h5)))"

text \<open>The request an options object stands for, read through its two references.\<close>

definition read_request :: "heap \<Rightarrow> ref \<Rightarrow> RequestOptions option" where
  "read_request h r =
     (case store h r of
        Some (OptionsObj m u hr b sr) \<Rightarrow>
          (case (store h hr, store h sr) of
             (Some (HeadersObj hs), Some (SearchObj s)) \<Rightarrow>
               Some \<lparr>method = m, url = u, headers = hs, body = b, search = s\<rparr>
           | _ \<Rightarrow> None)
      | _ \<Rightarrow> None)"

text \<open>The objects a request is made of.\<close>

definition parts :: "heap \<Rightarrow> ref \<Rightarrow> ref set" where
  "parts h r =
     (case store h r of
        Some (OptionsObj m u hr b sr) \<Rightarrow> {r, hr, sr}
      | _ \<Rightarrow> {r})"

text \<open>An empty store, and a call of \<open>GET /users/{id}\<close> with a path and a header binding
  on it.\<close>

definition heap0 :: heap where
  "heap0 = \<lparr>store = Map.empty, next_ref = 0\<rparr>"

definition token_call :: "heap \<Rightarrow> (error + ref) \<times> heap" where
  "token_call =
     compile_new Get ''/users/{id}''
       (Header ''X-Token'' ''getUser'' 1 (Path ''id'' ''getUser'' 0 Map.empty)) ''getUser''
       \<lparr>d_headers = Some [(''Accept'', Str ''application/json'')], isJSON = True\<rparr>
       (BaseUrl ''https://api.test'' (base_client (\<lambda>r w. ([], w)) (\<lambda>x. x))
          :: (unit, unit) RESTClient)
       [Str ''42'', Str ''t'']"

section \<open>Facts about the request of a call\<close>

lemma compile_Inr_iff:
  "compile m template tgt propertyKey d this args = Inr req \<longleftrightarrow>
     (\<exists>b. compile_body (tgt (metadataKey propertyKey ''Body'')) args = Inr b \<and>
          req = \<lparr>method = m,
                 url = to_string (getBaseUrl this)
                       @ compile_path (tgt (metadataKey propertyKey ''Path'')) template args,
                 headers = compile_headers (getDefaultHeaders this) (d_headers d)
                             (tgt (metadataKey propertyKey ''Header'')) args,
                 body = b,
                 search = compile_query (tgt (metadataKey propertyKey ''Query'')) args\<rparr>)"
  by (auto simp: compile_def Let_def split: sum.splits)

section \<open>Binding registration\<close>

lemma params_of_paramBuilder:
  "params_of (paramBuilder paramName k propertyKey i tgt) (metadataKey propertyKey paramName)
     = params_of tgt (metadataKey propertyKey paramName) @ [\<lparr>key = k, parameterIndex = i\<rparr>]"
  by (simp add: paramBuilder_def params_of_def Let_def split: option.splits)

lemma params_of_register_all:
  "params_of (register_all paramName propertyKey regs tgt) (metadataKey propertyKey paramName)
     = params_of tgt (metadataKey propertyKey paramName)
       @ map (\<lambda>r. \<lparr>key = fst r, parameterIndex = snd r\<rparr>) regs"
  unfolding register_all_def
  by (induction regs arbitrary: tgt) (simp_all add: params_of_paramBuilder)

lemma paramBuilder_other_key:
  "mk \<noteq> metadataKey propertyKey paramName \<Longrightarrow>
     paramBuilder paramName k propertyKey i tgt mk = tgt mk"
  by (simp add: paramBuilder_def Let_def split: option.splits)

text \<open>
  Claim C7. Every registration for one (method, role) list puts its
  \<open>{key, parameterIndex}\<close> object at the end of the list, whatever the list already
  holds: after a run of registrations the list is the old list followed by the new
  bindings in registration order, duplicates included. Started from a key that is not
  set, \<open>n\<close> registrations leave exactly the \<open>n\<close> bindings.
\<close>

theorem registrations_append_in_order:
  "params_of (register_all paramName propertyKey regs tgt) (metadataKey propertyKey paramName)
     = params_of tgt (metadataKey propertyKey paramName)
       @ map (\<lambda>r. \<lparr>key = fst r, parameterIndex = snd r\<rparr>) regs
   \<and> params_of (register_all paramName propertyKey regs
                  (tgt(metadataKey propertyKey paramName := None)))
        (metadataKey propertyKey paramName)
     = map (\<lambda>r. \<lparr>key = fst r, parameterIndex = snd r\<rparr>) regs
   \<and> length (params_of (register_all paramName propertyKey regs
                  (tgt(metadataKey propertyKey paramName := None)))
        (metadataKey propertyKey paramName)) = length regs"
  by (simp add: params_of_register_all) (simp add: params_of_def)

section \<open>The scenario of the specification\<close>

text \<open>
  Claim C5. \<open>GET /users/{id}\<close> with \<open>@Path('id')\<close> on parameter 0 and \<open>@Query('active')\<close> on
  parameter 1, on a client with base URL \<open>https://api.test\<close>, called with \<open>("42", true)\<close>:
  the URL is \<open>https://api.test/users/42\<close> and the query is \<open>active=true\<close>.
\<close>

theorem scenario_get_user:
  "compile Get ''/users/{id}''
     (Query ''active'' ''getUser'' 1 (Path ''id'' ''getUser'' 0 Map.empty)) ''getUser''
     \<lparr>d_headers = None, isJSON = False\<rparr>
     (BaseUrl ''https://api.test'' (base_client http js)) [Str ''42'', Bool True]
   = Inr \<lparr>method = Get, url = ''https://api.test/users/42'', headers = [], body = Null,
          search = [(''active'', ''true'')]\<rparr>"
  by code_simp

section \<open>Body\<close>

text \<open>
  Claim C3. With a Body list whose first binding is \<open>p\<close>, the body of the request is
  \<open>JSON.stringify\<close> of the argument at \<open>p\<close>'s position, whatever bindings follow \<open>p\<close> in the
  list. Without a Body list the body is \<open>null\<close>: not the empty string and not the
  string \<open>null\<close>.
\<close>

theorem body_of_first_Body_binding:
  "(tgt (metadataKey propertyKey ''Body'') = Some (p # ps) \<longrightarrow>
      (\<exists>req. compile m template tgt propertyKey d this args = Inr req
             \<and> body req = JSON_stringify (arg args (parameterIndex p))))
   \<and> (tgt (metadataKey propertyKey ''Body'') = None \<longrightarrow>
      (\<exists>req. compile m template tgt propertyKey d this args = Inr req
             \<and> body req = Null \<and> body req \<noteq> Str [] \<and> body req \<noteq> Str ''null''))"
  by (simp add: compile_Inr_iff compile_body_def)

theorem body_of_first_Body_binding_witness:
  "(Body ''create'' 1 (Body ''create'' 0 Map.empty)) (metadataKey ''create'' ''Body'')
      = Some (\<lparr>key = ''Body'', parameterIndex = 0\<rparr> # [\<lparr>key = ''Body'', parameterIndex = 1\<rparr>])
   \<and> (\<exists>req. compile Post ''/users'' (Body ''create'' 1 (Body ''create'' 0 Map.empty)) ''create''
               \<lparr>d_headers = None, isJSON = False\<rparr>
               (base_client (\<lambda>r w. ([], w)) (\<lambda>x. x) :: (unit, unit) RESTClient)
               [Obj [(''x'', Num 1)], Str ''ignored''] = Inr req
            \<and> body req = Str (''{'' @ [CHR 0x22] @ ''x'' @ [CHR 0x22] @ '':1}''))
   \<and> (Map.empty :: target) (metadataKey ''list'' ''Body'') = None
   \<and> (\<exists>req. compile Get ''/users'' Map.empty ''list''
               \<lparr>d_headers = None, isJSON = False\<rparr>
               (base_client (\<lambda>r w. ([], w)) (\<lambda>x. x) :: (unit, unit) RESTClient)
               [] = Inr req
            \<and> body req = Null \<and> body req \<noteq> Str [] \<and> body req \<noteq> Str ''null'')"
proof -
  let ?t = "Body ''create'' 1 (Body ''create'' 0 Map.empty)"
  have h1: "?t (metadataKey ''create'' ''Body'')
      = Some (\<lparr>key = ''Body'', parameterIndex = 0\<rparr> # [\<lparr>key = ''Body'', parameterIndex = 1\<rparr>])"
    by code_simp
  have h2: "(Map.empty :: target) (metadataKey ''list'' ''Body'') = None"
    by simp
  have j: "JSON_stringify (arg [Obj [(''x'', Num 1)], Str ''ignored''] 0)
             = Str (''{'' @ [CHR 0x22] @ ''x'' @ [CHR 0x22] @ '':1}'')"
    by code_simp
  note t1 = body_of_first_Body_binding
    [where tgt = ?t and propertyKey = "''create''" and p = "\<lparr>key = ''Body'', parameterIndex = 0\<rparr>"
       and ps = "[\<lparr>key = ''Body'', parameterIndex = 1\<rparr>]" and m = Post
       and template = "''/users''" and d = "\<lparr>d_headers = None, isJSON = False\<rparr>"
       and this = "base_client (\<lambda>r w. ([], w)) (\<lambda>x. x) :: (unit, unit) RESTClient"
       and args = "[Obj [(''x'', Num 1)], Str ''ignored'']"]
  note t2 = body_of_first_Body_binding
    [where tgt = "Map.empty" and propertyKey = "''list''" and m = Get
       and template = "''/users''" and d = "\<lparr>d_headers = None, isJSON = False\<rparr>"
       and this = "base_client (\<lambda>r w. ([], w)) (\<lambda>x. x) :: (unit, unit) RESTClient"
       and args = "[]"]
  from t1 [THEN conjunct1] t2 [THEN conjunct2] h1 h2 j
  show ?thesis
    by simp
qed

section \<open>Base URL\<close>

text \<open>
  Claim C6. A client that does not override \<open>getBaseUrl\<close> gets \<open>null\<close> from it, and
  \<open>this.getBaseUrl() + resUrl\<close> turns that into the text \<open>null\<close>: the call goes through,
  with the URL \<open>null/users\<close> for the path \<open>/users\<close>.
\<close>

theorem absent_base_url_prefixes_null:
  "compile Get ''/users'' Map.empty ''list'' \<lparr>d_headers = None, isJSON = False\<rparr>
     (base_client http js) []
   = Inr \<lparr>method = Get, url = ''null/users'', headers = [], body = Null, search = []\<rparr>"
  by code_simp

lemma base_client_url:
  "compile m template tgt propertyKey d (base_client http js) args = Inr req \<Longrightarrow>
     url req = ''null'' @ compile_path (tgt (metadataKey propertyKey ''Path'')) template args"
  by (auto simp: compile_Inr_iff base_client_def)

section \<open>Path substitution\<close>

text \<open>What \<open>split_first\<close> finds is the leftmost occurrence of the pattern.\<close>

lemma split_first_sound:
  "split_first pat s = Some (b, a) \<Longrightarrow> s = b @ pat @ a"
proof (induction s arbitrary: b)
  case Nil
  then show ?case by (simp split: if_splits)
next
  case (Cons c cs)
  show ?case
  proof (cases "prefix pat (c # cs)")
    case True
    with Cons.prems show ?thesis
      by (auto simp: prefix_def)
  next
    case False
    with Cons.prems obtain b' where "split_first pat cs = Some (b', a)" "b = c # b'"
      by (auto split: option.splits)
    with Cons.IH show ?thesis by simp
  qed
qed

lemma split_first_none:
  "split_first pat s = None \<Longrightarrow> s \<noteq> b @ pat @ a"
proof (induction s arbitrary: b)
  case Nil
  then show ?case by (auto split: if_splits)
next
  case (Cons c cs)
  from Cons.prems have np: "\<not> prefix pat (c # cs)" and n: "split_first pat cs = None"
    by (auto split: if_splits option.splits)
  show ?case
  proof (cases b)
    case Nil
    with np show ?thesis by (auto simp: prefix_def)
  next
    case (Cons b0 bs)
    with Cons.IH [OF n, of bs] show ?thesis by auto
  qed
qed

lemma split_first_leftmost:
  "split_first pat s = Some (b, a) \<Longrightarrow> s = b' @ pat @ a' \<Longrightarrow> length b \<le> length b'"
proof (induction s arbitrary: b b')
  case Nil
  then show ?case by (auto split: if_splits)
next
  case (Cons c cs)
  show ?case
  proof (cases "prefix pat (c # cs)")
    case True
    with Cons.prems(1) show ?thesis by simp
  next
    case False
    with Cons.prems(1) obtain b0 where s: "split_first pat cs = Some (b0, a)" and b: "b = c # b0"
      by (auto split: option.splits)
    from False Cons.prems(2) obtain bs where b': "b' = c # bs" and cs: "cs = bs @ pat @ a'"
      by (cases b') (auto simp: prefix_def)
    from Cons.IH [OF s cs] b b' show ?thesis by simp
  qed
qed

text \<open>A replacement value whose text has no \<open>$\<close> is put in as it is.\<close>

lemma get_substitution_literal:
  "CHR ''$'' \<notin> set r \<Longrightarrow> get_substitution matched pre post r = r"
  by (induction matched pre post r rule: get_substitution.induct) auto

lemma js_replace_literal:
  "CHR ''$'' \<notin> set (to_string v) \<Longrightarrow> split_first pat s = Some (b, a) \<Longrightarrow>
     js_replace s pat v = b @ to_string v @ a"
  by (simp add: js_replace_def get_substitution_literal)

lemma js_replace_no_match:
  "split_first pat s = None \<Longrightarrow> js_replace s pat v = s"
  by (simp add: js_replace_def)

text \<open>
  Claim C4. \<open>GET /users/{id}\<close> with \<open>@Path('id')\<close> on parameter 0, called with the text
  \<open>$&\<close>: \<open>replace\<close> reads \<open>$&\<close> as "the matched text", so the placeholder is replaced by
  itself and the URL still holds \<open>{id}\<close>.
\<close>

theorem path_value_dollar_pattern:
  "compile Get ''/users/{id}'' (Path ''id'' ''getUser'' 0 Map.empty) ''getUser''
     \<lparr>d_headers = None, isJSON = False\<rparr>
     (BaseUrl ''https://api.test'' (base_client http js)) [Str ''$&'']
   = Inr \<lparr>method = Get, url = ''https://api.test/users/{id}'', headers = [], body = Null,
          search = []\<rparr>"
  by code_simp

section \<open>The stages of a call\<close>

lemma compile_failure_stops:
  "compile m template tgt propertyKey d this args = Inl e \<Longrightarrow>
     methodBuilder m template tgt propertyKey d this args w = (Inl e, w)"
  by (simp add: methodBuilder_def)

text \<open>
  Claim C8. A call builds the request, gives it to the request interceptor, gives the
  request as the interceptor left it to \<open>http.request\<close>, maps \<open>json()\<close> over the observable
  when \<open>isJSON\<close> is set, and gives the outcome to the response interceptor, whose result
  is the result of the call; each stage runs in the world the stage before it left. The
  response interceptor of the base class returns its argument.
\<close>

theorem call_stage_order:
  assumes "compile m template tgt propertyKey d this args = Inr options"
      and "requestInterceptor this options w = (req, w1)"
      and "http_request this req w1 = (observable, w2)"
      and "responseInterceptor this
             (if isJSON d then map (res_json this) observable else observable) w2 = (res, w3)"
  shows "methodBuilder m template tgt propertyKey d this args w = (Inr res, w3)
         \<and> responseInterceptor (base_client http js) obs w' = (obs, w')"
  using assms by (simp add: methodBuilder_def base_client_def)

theorem call_stage_order_witness:
  "methodBuilder Get ''/users'' Map.empty ''list'' \<lparr>d_headers = None, isJSON = True\<rparr>
     logging_client [] []
   = (Inr [''json:seen''], [''pre:https://api.test/users'', ''send:seen'', ''post:'', ''json:seen''])
   \<and> responseInterceptor (base_client (\<lambda>r w. ([], w)) (\<lambda>x. x) :: (unit, unit) RESTClient) [()] ()
       = ([()], ())"
proof -
  let ?opts = "\<lparr>method = Get, url = ''https://api.test/users'', headers = [], body = Null,
                 search = []\<rparr>"
  have c: "compile Get ''/users'' Map.empty ''list'' \<lparr>d_headers = None, isJSON = True\<rparr>
             logging_client [] = Inr ?opts"
    by code_simp
  have r: "requestInterceptor logging_client ?opts []
             = (?opts\<lparr>body := Str ''seen''\<rparr>, [''pre:https://api.test/users''])"
    by (simp add: logging_client_def)
  have h: "http_request logging_client (?opts\<lparr>body := Str ''seen''\<rparr>) [''pre:https://api.test/users'']
             = ([''seen''], [''pre:https://api.test/users'', ''send:seen''])"
    by (simp add: logging_client_def)
  have p: "responseInterceptor logging_client
             (if isJSON \<lparr>d_headers = None, isJSON = True\<rparr>
              then map (res_json logging_client) [''seen''] else [''seen''])
             [''pre:https://api.test/users'', ''send:seen'']
           = ([''json:seen''], [''pre:https://api.test/users'', ''send:seen'', ''post:'', ''json:seen''])"
    by (simp add: logging_client_def)
  from call_stage_order [OF c r h p] show ?thesis .
qed

section \<open>Query parameters\<close>

lemma map_of_filter_fst:
  "map_of (filter (\<lambda>e. fst e \<noteq> k) hs) k' = (if k' = k then None else map_of hs k')"
  by (induction hs) auto

lemma map_of_search_set:
  "map_of (search_set k v s) k' = (if k' = k then Some v else map_of s k')"
  by (induction s) (auto simp: map_of_filter_fst)

lemma map_of_fold_search_set:
  "map_of (fold (\<lambda>p s. search_set (kf p) (vf p) s) ps s0) k
     = (case filter (\<lambda>p. kf p = k) ps of
          [] \<Rightarrow> map_of s0 k
        | q # qs \<Rightarrow> Some (vf (last (q # qs))))"
proof (induction ps arbitrary: s0)
  case Nil
  show ?case by simp
next
  case (Cons x ps)
  show ?case
    by (simp add: Cons.IH map_of_search_set split: list.splits)
qed

lemma map_of_compile_query:
  "map_of (compile_query pQuery args) k
     = (case filter (\<lambda>p. truthy (arg args (parameterIndex p))
                          \<and> encodeURIComponent (Str (key p)) = k)
               (case pQuery of None \<Rightarrow> [] | Some ps \<Rightarrow> ps) of
          [] \<Rightarrow> None
        | q # qs \<Rightarrow>
            Some (encodeURIComponent (query_value (arg args (parameterIndex (last (q # qs)))))))"
  by (simp add: compile_query_def map_of_fold_search_set split: option.splits list.splits)

text \<open>
  The query as a map: a key is in it exactly when some Query binding with that encoded
  key has a truthy argument, and its value is the one the last such binding sets.
\<close>

lemma query_map_of_truthy_bindings:
  assumes "compile m template tgt propertyKey d this args = Inr req"
  shows "map_of (search req) k
           = (case filter (\<lambda>p. truthy (arg args (parameterIndex p))
                                \<and> encodeURIComponent (Str (key p)) = k)
                     (params_of tgt (metadataKey propertyKey ''Query'')) of
                [] \<Rightarrow> None
              | q # qs \<Rightarrow>
                  Some (encodeURIComponent
                          (query_value (arg args (parameterIndex (last (q # qs)))))))
         \<and> ((\<forall>q \<in> set (params_of tgt (metadataKey propertyKey ''Query'')).
                encodeURIComponent (Str (key q)) = k \<longrightarrow> \<not> truthy (arg args (parameterIndex q)))
              \<longrightarrow> map_of (search req) k = None)
         \<and> (\<forall>v. instanceof_Object v \<longrightarrow> query_value v = JSON_stringify v)
         \<and> (\<forall>v. \<not> instanceof_Object v \<longrightarrow> query_value v = v)"
proof -
  let ?ps = "params_of tgt (metadataKey propertyKey ''Query'')"
  from assms have s: "search req = compile_query (tgt (metadataKey propertyKey ''Query'')) args"
    by (auto simp: compile_Inr_iff)
  have c: "map_of (search req) k
           = (case filter (\<lambda>p. truthy (arg args (parameterIndex p))
                                \<and> encodeURIComponent (Str (key p)) = k) ?ps of
                [] \<Rightarrow> None
              | q # qs \<Rightarrow>
                  Some (encodeURIComponent
                          (query_value (arg args (parameterIndex (last (q # qs)))))))"
    unfolding s params_of_def by (rule map_of_compile_query)
  have "map_of (search req) k = None"
    if "\<forall>q \<in> set ?ps. encodeURIComponent (Str (key q)) = k \<longrightarrow> \<not> truthy (arg args (parameterIndex q))"
  proof -
    from that have "filter (\<lambda>p. truthy (arg args (parameterIndex p))
                                \<and> encodeURIComponent (Str (key p)) = k) ?ps = []"
      by (auto simp: filter_empty_conv)
    with c show ?thesis by simp
  qed
  with c show ?thesis by (simp add: query_value_def)
qed

text \<open>\<open>encodeURIComponent\<close> maps different strings to different strings: every code unit
  becomes itself, one \<open>%XX\<close> group or two, and no encoding begins another.\<close>

lemma of_char_hex_digit:
  "a < 16 \<Longrightarrow> (of_char (hex_digit a) :: nat) = (if a < 10 then 48 + a else 55 + a)"
  by (simp add: hex_digit_def)

lemma hex_digit_inj:
  assumes "a < 16" "b < 16" "hex_digit a = hex_digit b"
  shows "a = b"
proof -
  from assms(3) have "(of_char (hex_digit a) :: nat) = of_char (hex_digit b)"
    by simp
  with assms(1,2) show ?thesis
    by (simp add: of_char_hex_digit split: if_splits)
qed

lemma div_mod_same: "(a::nat) div k = b div k \<Longrightarrow> a mod k = b mod k \<Longrightarrow> a = b"
  by (metis div_mult_mod_eq)

lemma percent_byte_inj:
  assumes "a < 256" "b < 256" "percent_byte a = percent_byte b"
  shows "a = b"
proof -
  from assms have "a div 16 = b div 16" "a mod 16 = b mod 16"
    by (auto simp: percent_byte_def intro!: hex_digit_inj)
  then show ?thesis
    by (rule div_mod_same)
qed

lemma unreserved_not_percent: "uri_unreserved c \<Longrightarrow> c \<noteq> CHR ''%''"
  by (auto simp: uri_unreserved_def)

lemma lead_octet_digit:
  assumes "(n::nat) < 256" "\<not> n < 128"
  shows "(192 + n div 64) div 16 = 12"
proof -
  from assms(1) have "n div 64 < 4" by (simp add: less_mult_imp_div_less)
  moreover from assms(2) have "128 div 64 \<le> n div 64" by (intro div_le_mono) simp
  ultimately have "n div 64 = 2 \<or> n div 64 = 3" by simp arith
  then show ?thesis by auto
qed

lemma ascii_digit: "(n::nat) < 128 \<Longrightarrow> n div 16 < 8"
  by (simp add: less_mult_imp_div_less)

lemma encode_char_prefix_free:
  assumes "encode_char c @ r = encode_char c' @ r'"
  shows "c = c' \<and> r = r'"
proof -
  let ?n = "of_char c :: nat" and ?n' = "of_char c' :: nat"
  have lt: "?n < 256" "?n' < 256" by simp_all
  consider (uu) "uri_unreserved c" "uri_unreserved c'"
    | (up) "uri_unreserved c" "\<not> uri_unreserved c'"
    | (pu) "\<not> uri_unreserved c" "uri_unreserved c'"
    | (ss) "\<not> uri_unreserved c" "\<not> uri_unreserved c'" "?n < 128" "?n' < 128"
    | (sl) "\<not> uri_unreserved c" "\<not> uri_unreserved c'" "?n < 128" "\<not> ?n' < 128"
    | (ls) "\<not> uri_unreserved c" "\<not> uri_unreserved c'" "\<not> ?n < 128" "?n' < 128"
    | (ll) "\<not> uri_unreserved c" "\<not> uri_unreserved c'" "\<not> ?n < 128" "\<not> ?n' < 128"
    by blast
  then show ?thesis
  proof cases
    case uu
    with assms show ?thesis by (simp add: encode_char_def)
  next
    case up
    with assms unreserved_not_percent [of c] show ?thesis
      by (auto simp: encode_char_def percent_byte_def split: if_splits)
  next
    case pu
    with assms unreserved_not_percent [of c'] show ?thesis
      by (auto simp: encode_char_def percent_byte_def split: if_splits)
  next
    case ss
    with assms have "percent_byte ?n = percent_byte ?n'" and r: "r = r'"
      by (simp_all add: encode_char_def percent_byte_def)
    from percent_byte_inj [OF lt this(1)] r show ?thesis by simp
  next
    case sl
    with assms have "hex_digit (?n div 16) = hex_digit ((192 + ?n' div 64) div 16)"
      by (simp add: encode_char_def percent_byte_def)
    moreover from sl have "(192 + ?n' div 64) div 16 = 12" "?n div 16 < 8"
      using lead_octet_digit [OF lt(2)] ascii_digit [of ?n] by blast+
    ultimately have "?n div 16 = 12"
      using hex_digit_inj [of "?n div 16" 12] by simp
    with \<open>?n div 16 < 8\<close> show ?thesis by simp
  next
    case ls
    with assms have "hex_digit ((192 + ?n div 64) div 16) = hex_digit (?n' div 16)"
      by (simp add: encode_char_def percent_byte_def)
    moreover from ls have "(192 + ?n div 64) div 16 = 12" "?n' div 16 < 8"
      using lead_octet_digit [OF lt(1)] ascii_digit [of ?n'] by blast+
    ultimately have "?n' div 16 = 12"
      using hex_digit_inj [of 12 "?n' div 16"] by simp
    with \<open>?n' div 16 < 8\<close> show ?thesis by simp
  next
    case ll
    with assms have hi: "percent_byte (192 + ?n div 64) = percent_byte (192 + ?n' div 64)"
      and lo: "percent_byte (128 + ?n mod 64) = percent_byte (128 + ?n' mod 64)"
      and r: "r = r'"
      by (simp_all add: encode_char_def percent_byte_def)
    have small: "192 + k div 64 < 256 \<and> 128 + k mod 64 < 256" if "k < 256" for k :: nat
    proof -
      from that have "k div 64 < 4" by (simp add: less_mult_imp_div_less)
      moreover have "k mod 64 < 64" by simp
      ultimately show ?thesis by simp
    qed
    from small [OF lt(1)] small [OF lt(2)]
    have b: "192 + ?n div 64 < 256" "192 + ?n' div 64 < 256"
      "128 + ?n mod 64 < 256" "128 + ?n' mod 64 < 256"
      by blast+
    from percent_byte_inj [OF b(1,2) hi] percent_byte_inj [OF b(3,4) lo]
    have "?n div 64 = ?n' div 64" "?n mod 64 = ?n' mod 64"
      by simp_all
    then have "?n = ?n'"
      by (rule div_mod_same)
    with r show ?thesis by simp
  qed
qed

lemma encode_char_nonempty: "encode_char c \<noteq> []"
  by (simp add: encode_char_def percent_byte_def)

lemma concat_encode_inj:
  "concat (map encode_char s) = concat (map encode_char s') \<Longrightarrow> s = s'"
proof (induction s arbitrary: s')
  case Nil
  then show ?case
    by (cases s') (simp_all add: encode_char_nonempty)
next
  case (Cons c s)
  show ?case
  proof (cases s')
    case Nil
    with Cons.prems show ?thesis
      by (simp add: encode_char_nonempty)
  next
    case (Cons c' t)
    with Cons.prems have "encode_char c @ concat (map encode_char s)
                            = encode_char c' @ concat (map encode_char t)"
      by simp
    from encode_char_prefix_free [OF this]
    have "c = c'" and "concat (map encode_char s) = concat (map encode_char t)"
      by blast+
    with Cons.IH [of t] have "c = c'" and "s = t"
      by blast+
    with Cons show ?thesis
      by blast
  qed
qed

lemma encodeURIComponent_Str_inj:
  "encodeURIComponent (Str s) = encodeURIComponent (Str s') \<Longrightarrow> s = s'"
  by (simp add: encodeURIComponent_def concat_encode_inj)


lemma filter_distinct_key:
  assumes "distinct (map f ps)" "p \<in> set ps"
  shows "filter (\<lambda>q. P q \<and> f q = f p) ps = (if P p then [p] else [])"
  using assms
proof (induction ps)
  case Nil
  then show ?case by simp
next
  case (Cons x ps)
  show ?case
  proof (cases "x = p")
    case True
    with Cons.prems(1) have "f q \<noteq> f p" if "q \<in> set ps" for q
      using that by (auto simp: image_iff)
    then have "filter (\<lambda>q. P q \<and> f q = f p) ps = []"
      by (auto simp: filter_empty_conv)
    with True show ?thesis by simp
  next
    case False
    with Cons.prems have in_ps: "p \<in> set ps" and d: "distinct (map f ps)" and "f x \<noteq> f p"
      by auto
    with Cons.IH show ?thesis by simp
  qed
qed

text \<open>
  Claim C2. Where the Query bindings of a method have pairwise different keys, as the
  data model has them: a Query binding whose argument is falsy (\<open>undefined\<close>, \<open>null\<close>,
  \<open>false\<close>, \<open>0\<close>, the empty string) leaves its key out of the query; a Query binding whose
  argument is truthy puts its percent-encoded key in the query with the percent-encoded
  value, an object being turned into its JSON text first.
\<close>

theorem query_binding_by_truthiness:
  assumes "compile m template tgt propertyKey d this args = Inr req"
      and "distinct (map key (params_of tgt (metadataKey propertyKey ''Query'')))"
      and "p \<in> set (params_of tgt (metadataKey propertyKey ''Query''))"
  shows "(\<not> truthy (arg args (parameterIndex p))
            \<longrightarrow> map_of (search req) (encodeURIComponent (Str (key p))) = None)
         \<and> (truthy (arg args (parameterIndex p))
            \<longrightarrow> map_of (search req) (encodeURIComponent (Str (key p)))
                  = Some (encodeURIComponent
                            (if instanceof_Object (arg args (parameterIndex p))
                             then JSON_stringify (arg args (parameterIndex p))
                             else arg args (parameterIndex p))))"
proof -
  let ?ps = "params_of tgt (metadataKey propertyKey ''Query'')"
  let ?k = "encodeURIComponent (Str (key p))"
  from assms(2) have dist: "distinct (map (\<lambda>q. encodeURIComponent (Str (key q))) ?ps)"
    by (auto simp: distinct_map inj_on_def dest: encodeURIComponent_Str_inj)
  from assms(1) have s: "search req = compile_query (tgt (metadataKey propertyKey ''Query'')) args"
    by (auto simp: compile_Inr_iff)
  have f: "filter (\<lambda>q. truthy (arg args (parameterIndex q))
                         \<and> encodeURIComponent (Str (key q)) = ?k) ?ps
           = (if truthy (arg args (parameterIndex p)) then [p] else [])"
    by (rule filter_distinct_key [OF dist assms(3)])
  have "map_of (search req) ?k
          = (if truthy (arg args (parameterIndex p))
             then Some (encodeURIComponent (query_value (arg args (parameterIndex p))))
             else None)"
    unfolding s map_of_compile_query
    using f by (simp add: params_of_def)
  then show ?thesis
    by (simp add: query_value_def)
qed


theorem query_binding_by_truthiness_witness:
  "compile Get ''/find''
     (Query ''q'' ''find'' 2 (Query ''page'' ''find'' 1 (Query ''filter'' ''find'' 0 Map.empty)))
     ''find'' \<lparr>d_headers = None, isJSON = False\<rparr>
     (BaseUrl ''https://api.test'' (base_client (\<lambda>r w. ([], w)) (\<lambda>x. x))
        :: (unit, unit) RESTClient)
     [Obj [(''a'', Num 1)], Num 0, Str ''x y'']
   = Inr \<lparr>method = Get, url = ''https://api.test/find'', headers = [], body = Null,
          search = [(''filter'', ''%7B%22a%22%3A1%7D''), (''q'', ''x%20y'')]\<rparr>
   \<and> distinct (map key (params_of
        (Query ''q'' ''find'' 2 (Query ''page'' ''find'' 1 (Query ''filter'' ''find'' 0 Map.empty)))
        (metadataKey ''find'' ''Query'')))
   \<and> map_of [(''filter'', ''%7B%22a%22%3A1%7D''), (''q'', ''x%20y'')]
        (encodeURIComponent (Str ''page'')) = None
   \<and> map_of [(''filter'', ''%7B%22a%22%3A1%7D''), (''q'', ''x%20y'')]
        (encodeURIComponent (Str ''filter''))
       = Some (encodeURIComponent (JSON_stringify (Obj [(''a'', Num 1)])))
   \<and> map_of [(''filter'', ''%7B%22a%22%3A1%7D''), (''q'', ''x%20y'')]
        (encodeURIComponent (Str ''q''))
       = Some (encodeURIComponent (Str ''x y''))"
proof -
  let ?tgt = "Query ''q'' ''find'' 2 (Query ''page'' ''find'' 1 (Query ''filter'' ''find'' 0 Map.empty))"
  let ?args = "[Obj [(''a'', Num 1)], Num 0, Str ''x y'']"
  let ?req = "\<lparr>method = Get, url = ''https://api.test/find'', headers = [], body = Null,
          search = [(''filter'', ''%7B%22a%22%3A1%7D''), (''q'', ''x%20y'')]\<rparr>"
  let ?p0 = "\<lparr>key = ''filter'', parameterIndex = 0\<rparr>"
  let ?p1 = "\<lparr>key = ''page'', parameterIndex = 1\<rparr>"
  let ?p2 = "\<lparr>key = ''q'', parameterIndex = 2\<rparr>"
  have c: "compile Get ''/find'' ?tgt ''find'' \<lparr>d_headers = None, isJSON = False\<rparr>
             (BaseUrl ''https://api.test'' (base_client (\<lambda>r w. ([], w)) (\<lambda>x. x))
                :: (unit, unit) RESTClient) ?args = Inr ?req"
    by code_simp
  have l: "params_of ?tgt (metadataKey ''find'' ''Query'') = [?p0, ?p1, ?p2]"
    by code_simp
  have dist: "distinct (map key (params_of ?tgt (metadataKey ''find'' ''Query'')))"
    unfolding l by simp
  have m0: "?p0 \<in> set (params_of ?tgt (metadataKey ''find'' ''Query''))"
    and m1: "?p1 \<in> set (params_of ?tgt (metadataKey ''find'' ''Query''))"
    and m2: "?p2 \<in> set (params_of ?tgt (metadataKey ''find'' ''Query''))"
    unfolding l by simp_all
  let ?s = "[(''filter'', ''%7B%22a%22%3A1%7D''), (''q'', ''x%20y'')]"
  have sel: "search ?req = ?s"
    "key ?p0 = ''filter''" "key ?p1 = ''page''" "key ?p2 = ''q''"
    "parameterIndex ?p0 = 0" "parameterIndex ?p1 = 1" "parameterIndex ?p2 = 2"
    by simp_all
  have a0: "arg ?args 0 = Obj [(''a'', Num 1)]" and a1: "arg ?args 1 = Num 0"
    and a2: "arg ?args 2 = Str ''x y''"
    by code_simp+
  have t: "\<not> truthy (Num 0)" "truthy (Obj [(''a'', Num 1)])" "truthy (Str ''x y'')"
    "instanceof_Object (Obj [(''a'', Num 1)])" "\<not> instanceof_Object (Str ''x y'')"
    by simp_all
  from query_binding_by_truthiness [OF c dist m1, unfolded sel a1] t
  have 1: "map_of ?s (encodeURIComponent (Str ''page'')) = None"
    by blast
  from query_binding_by_truthiness [OF c dist m0, unfolded sel a0] t
  have 2: "map_of ?s (encodeURIComponent (Str ''filter''))
             = Some (encodeURIComponent (JSON_stringify (Obj [(''a'', Num 1)])))"
    by (simp only: if_True)
  from query_binding_by_truthiness [OF c dist m2, unfolded sel a2] t
  have 3: "map_of ?s (encodeURIComponent (Str ''q''))
             = Some (encodeURIComponent (Str ''x y''))"
    by (simp only: if_False)
  from c dist 1 2 3 show ?thesis
    by blast
qed

section \<open>Headers\<close>

lemma map_of_map_update:
  "map_of (map (\<lambda>e. if fst e = k then (fst e, y) else e) hs) k'
     = (if k' = k then (case map_of hs k of None \<Rightarrow> None | Some x \<Rightarrow> Some y) else map_of hs k')"
  by (induction hs) auto

lemma header_values_Nil: "header_values [] name = []"
  by (simp add: header_values_def)

lemma header_values_delete:
  "header_values (headers_delete n hs) name
     = (if toLowerCase n = toLowerCase name then [] else header_values hs name)"
  by (simp add: header_values_def headers_delete_def map_of_filter_fst)

lemma header_values_append:
  "header_values (headers_append n v hs) name
     = header_values hs name @ (if toLowerCase n = toLowerCase name then [v] else [])"
proof (cases "map_of hs (toLowerCase n)")
  case None
  then show ?thesis
    by (auto simp: header_values_def headers_append_def split: option.splits)
next
  case (Some sv)
  obtain shown vs where sv: "sv = (shown, vs)" by (cases sv)
  from Some sv map_of_map_update [of "toLowerCase n" "(shown, vs @ [v])" hs "toLowerCase name"]
  show ?thesis
    by (auto simp: header_values_def headers_append_def split: option.splits)
qed

lemma header_values_fold_append:
  "header_values (fold (\<lambda>x hs. headers_append (kf x) (vf x) hs) xs h) name
     = header_values h name @ map vf (filter (\<lambda>x. toLowerCase (kf x) = toLowerCase name) xs)"
  by (induction xs arbitrary: h) (simp_all add: header_values_append)

lemma header_values_new_Headers_fold:
  "header_values (fold (\<lambda>kv hs. headers_append (fst kv) (snd kv) (headers_delete (fst kv) hs)) obj h) name
     = (case filter (\<lambda>kv. toLowerCase (fst kv) = toLowerCase name) obj of
          [] \<Rightarrow> header_values h name
        | kv # kvs \<Rightarrow> [snd (last (kv # kvs))])"
proof (induction obj arbitrary: h)
  case Nil
  show ?case by simp
next
  case (Cons x obj)
  show ?case
    by (simp add: Cons.IH header_values_append header_values_delete split: list.splits)
qed

lemma header_values_new_Headers:
  "header_values (new_Headers init) name
     = (case filter (\<lambda>kv. toLowerCase (fst kv) = toLowerCase name) (own_properties init) of
          [] \<Rightarrow> []
        | kv # kvs \<Rightarrow> [snd (last (kv # kvs))])"
  by (simp add: new_Headers_def own_properties_def header_values_new_Headers_fold
        header_values_Nil split: option.splits list.splits)

lemma header_values_compile_headers:
  "header_values (compile_headers defaults static pHeader args) name
     = header_values (new_Headers defaults) name
       @ map snd (filter (\<lambda>kv. toLowerCase (fst kv) = toLowerCase name) (own_properties static))
       @ map (\<lambda>p. arg args (parameterIndex p))
           (filter (\<lambda>p. toLowerCase (key p) = toLowerCase name)
              (case pHeader of None \<Rightarrow> [] | Some ps \<Rightarrow> ps))"
  by (simp add: compile_headers_def Let_def own_properties_def header_values_fold_append
        split: option.splits)

lemma header_values_present:
  "header_values hs name \<noteq> [] \<Longrightarrow> map_of hs (toLowerCase name) \<noteq> None"
  by (auto simp: header_values_def split: option.splits)

text \<open>
  Claim C1. The headers of a request are built in three layers, the client's default
  headers, then the method's static headers, then the Header bindings. The default
  headers start the object (one value per name, the last own key of a name winning);
  the two later layers use \<open>append\<close>, which adds a value to those a name already has.
  So the values of a header, names compared without case, are the default value, then
  the static values, then the bound arguments, and no layer replaces an earlier one.
  For default \<open>{A:1}\<close>, static \<open>{A:2,B:3}\<close> and a binding of \<open>A\<close> to the argument \<open>4\<close> the
  headers are \<open>A: 1, 2, 4\<close> and \<open>B: 3\<close>.
\<close>

theorem headers_accumulate_by_layer:
  assumes "compile m template tgt propertyKey d this args = Inr req"
  shows "header_values (headers req) name
           = (case filter (\<lambda>kv. toLowerCase (fst kv) = toLowerCase name)
                     (own_properties (getDefaultHeaders this)) of
                [] \<Rightarrow> []
              | kv # kvs \<Rightarrow> [snd (last (kv # kvs))])
             @ map snd (filter (\<lambda>kv. toLowerCase (fst kv) = toLowerCase name)
                          (own_properties (d_headers d)))
             @ map (\<lambda>p. arg args (parameterIndex p))
                 (filter (\<lambda>p. toLowerCase (key p) = toLowerCase name)
                    (params_of tgt (metadataKey propertyKey ''Header'')))"
proof -
  from assms have "headers req = compile_headers (getDefaultHeaders this) (d_headers d)
                                   (tgt (metadataKey propertyKey ''Header'')) args"
    by (auto simp: compile_Inr_iff)
  then show ?thesis
    by (simp add: header_values_compile_headers header_values_new_Headers params_of_def)
qed

theorem headers_accumulate_by_layer_witness:
  "compile Get ''/x'' (Header ''A'' ''call'' 0 Map.empty) ''call''
     \<lparr>d_headers = Some [(''A'', Str ''2''), (''B'', Str ''3'')], isJSON = False\<rparr>
     (DefaultHeaders [(''A'', Str ''1'')]
        (BaseUrl ''https://api.test'' (base_client (\<lambda>r w. ([], w)) (\<lambda>x. x)))
        :: (unit, unit) RESTClient)
     [Str ''4'']
   = Inr \<lparr>method = Get, url = ''https://api.test/x'',
          headers = [(''a'', ''A'', [Str ''1'', Str ''2'', Str ''4'']), (''b'', ''B'', [Str ''3''])],
          body = Null, search = []\<rparr>
   \<and> header_values [(''a'', ''A'', [Str ''1'', Str ''2'', Str ''4'']), (''b'', ''B'', [Str ''3''])] ''A''
       = [Str ''1''] @ [Str ''2''] @ [Str ''4'']
   \<and> header_values [(''a'', ''A'', [Str ''1'', Str ''2'', Str ''4'']), (''b'', ''B'', [Str ''3''])] ''B''
       = [] @ [Str ''3''] @ []"
proof -
  let ?tgt = "Header ''A'' ''call'' 0 Map.empty"
  let ?d = "\<lparr>d_headers = Some [(''A'', Str ''2''), (''B'', Str ''3'')], isJSON = False\<rparr>"
  let ?cl = "DefaultHeaders [(''A'', Str ''1'')]
        (BaseUrl ''https://api.test'' (base_client (\<lambda>r w. ([], w)) (\<lambda>x. x)))
        :: (unit, unit) RESTClient"
  let ?req = "\<lparr>method = Get, url = ''https://api.test/x'',
          headers = [(''a'', ''A'', [Str ''1'', Str ''2'', Str ''4'']), (''b'', ''B'', [Str ''3''])],
          body = Null, search = []\<rparr>"
  have c: "compile Get ''/x'' ?tgt ''call'' ?d ?cl [Str ''4''] = Inr ?req"
    by code_simp
  have a: "(case filter (\<lambda>kv. toLowerCase (fst kv) = toLowerCase ''A'')
                     (own_properties (getDefaultHeaders ?cl)) of
                [] \<Rightarrow> []
              | kv # kvs \<Rightarrow> [snd (last (kv # kvs))])
             @ map snd (filter (\<lambda>kv. toLowerCase (fst kv) = toLowerCase ''A'')
                          (own_properties (d_headers ?d)))
             @ map (\<lambda>p. arg [Str ''4''] (parameterIndex p))
                 (filter (\<lambda>p. toLowerCase (key p) = toLowerCase ''A'')
                    (params_of ?tgt (metadataKey ''call'' ''Header'')))
           = [Str ''1''] @ [Str ''2''] @ [Str ''4'']"
    by code_simp
  have b: "(case filter (\<lambda>kv. toLowerCase (fst kv) = toLowerCase ''B'')
                     (own_properties (getDefaultHeaders ?cl)) of
                [] \<Rightarrow> []
              | kv # kvs \<Rightarrow> [snd (last (kv # kvs))])
             @ map snd (filter (\<lambda>kv. toLowerCase (fst kv) = toLowerCase ''B'')
                          (own_properties (d_headers ?d)))
             @ map (\<lambda>p. arg [Str ''4''] (parameterIndex p))
                 (filter (\<lambda>p. toLowerCase (key p) = toLowerCase ''B'')
                    (params_of ?tgt (metadataKey ''call'' ''Header'')))
           = [] @ [Str ''3''] @ []"
    by code_simp
  note t = headers_accumulate_by_layer [OF c]
  from t [of "''A''"] a have 1: "header_values (headers ?req) ''A'' = [Str ''1''] @ [Str ''2''] @ [Str ''4'']"
    by (simp only:)
  from t [of "''B''"] b have 2: "header_values (headers ?req) ''B'' = [] @ [Str ''3''] @ []"
    by (simp only:)
  from c 1 2 show ?thesis by simp
qed

text \<open>The same example against the override reading: the headers are not \<open>{A:4, B:3}\<close>.\<close>

theorem header_override_counterexample:
  "compile Get ''/x'' (Header ''A'' ''call'' 0 Map.empty) ''call''
     \<lparr>d_headers = Some [(''A'', Str ''2''), (''B'', Str ''3'')], isJSON = False\<rparr>
     (DefaultHeaders [(''A'', Str ''1'')]
        (BaseUrl ''https://api.test'' (base_client (\<lambda>r w. ([], w)) (\<lambda>x. x)))
        :: (unit, unit) RESTClient)
     [Str ''4'']
   = Inr \<lparr>method = Get, url = ''https://api.test/x'',
          headers = [(''a'', ''A'', [Str ''1'', Str ''2'', Str ''4'']), (''b'', ''B'', [Str ''3''])],
          body = Null, search = []\<rparr>
   \<and> [(''a'', ''A'', [Str ''1'', Str ''2'', Str ''4'']), (''b'', ''B'', [Str ''3''])]
       \<noteq> [(''a'', ''A'', [Str ''4'']), (''b'', ''B'', [Str ''3''])]"
  by code_simp

text \<open>
  Claim C10. Header bindings are not filtered: every binding in the Header list appends
  the argument at its position to the header of its key, whatever the argument is. The
  header is there after the call and the argument is among its values; for a position
  past the end of the arguments that value is \<open>undefined\<close>.
\<close>

theorem header_binding_never_filtered:
  assumes "compile m template tgt propertyKey d this args = Inr req"
      and "tgt (metadataKey propertyKey ''Header'') = Some ps"
      and "p \<in> set ps"
  shows "map_of (headers req) (toLowerCase (key p)) \<noteq> None
         \<and> arg args (parameterIndex p) \<in> set (header_values (headers req) (key p))
         \<and> (length args \<le> parameterIndex p
              \<longrightarrow> Undefined \<in> set (header_values (headers req) (key p)))"
proof -
  from assms(1) have h: "headers req = compile_headers (getDefaultHeaders this) (d_headers d)
                                   (tgt (metadataKey propertyKey ''Header'')) args"
    by (auto simp: compile_Inr_iff)
  from assms(2,3) have v: "arg args (parameterIndex p) \<in> set (header_values (headers req) (key p))"
    unfolding h by (auto simp: header_values_compile_headers)
  then have "header_values (headers req) (key p) \<noteq> []"
    by auto
  then have "map_of (headers req) (toLowerCase (key p)) \<noteq> None"
    by (rule header_values_present)
  moreover have "Undefined \<in> set (header_values (headers req) (key p))"
    if "length args \<le> parameterIndex p"
    using v that by (simp add: arg_def)
  ultimately show ?thesis using v by blast
qed

theorem header_binding_never_filtered_witness:
  "compile Get ''/x'' (Header ''X-Flag'' ''call'' 1 (Header ''X-Token'' ''call'' 0 Map.empty)) ''call''
     \<lparr>d_headers = None, isJSON = False\<rparr>
     (BaseUrl ''https://api.test'' (base_client (\<lambda>r w. ([], w)) (\<lambda>x. x))
        :: (unit, unit) RESTClient)
     [Str []]
   = Inr \<lparr>method = Get, url = ''https://api.test/x'',
          headers = [(''x-token'', ''X-Token'', [Str []]), (''x-flag'', ''X-Flag'', [Undefined])],
          body = Null, search = []\<rparr>
   \<and> map_of [(''x-token'', ''X-Token'', [Str []]), (''x-flag'', ''X-Flag'', [Undefined])]
        (toLowerCase ''X-Flag'') \<noteq> None
   \<and> Undefined \<in> set (header_values
        [(''x-token'', ''X-Token'', [Str []]), (''x-flag'', ''X-Flag'', [Undefined])] ''X-Flag'')
   \<and> Str [] \<in> set (header_values
        [(''x-token'', ''X-Token'', [Str []]), (''x-flag'', ''X-Flag'', [Undefined])] ''X-Token'')"
proof -
  let ?tgt = "Header ''X-Flag'' ''call'' 1 (Header ''X-Token'' ''call'' 0 Map.empty)"
  let ?req = "\<lparr>method = Get, url = ''https://api.test/x'',
          headers = [(''x-token'', ''X-Token'', [Str []]), (''x-flag'', ''X-Flag'', [Undefined])],
          body = Null, search = []\<rparr>"
  let ?p0 = "\<lparr>key = ''X-Token'', parameterIndex = 0\<rparr>"
  let ?p1 = "\<lparr>key = ''X-Flag'', parameterIndex = 1\<rparr>"
  have c: "compile Get ''/x'' ?tgt ''call'' \<lparr>d_headers = None, isJSON = False\<rparr>
     (BaseUrl ''https://api.test'' (base_client (\<lambda>r w. ([], w)) (\<lambda>x. x))
        :: (unit, unit) RESTClient) [Str []] = Inr ?req"
    by code_simp
  have l: "?tgt (metadataKey ''call'' ''Header'') = Some [?p0, ?p1]"
    by code_simp
  have m0: "?p0 \<in> set [?p0, ?p1]" and m1: "?p1 \<in> set [?p0, ?p1]"
    by simp_all
  from header_binding_never_filtered [OF c l m1] header_binding_never_filtered [OF c l m0] c
  show ?thesis
    by (simp add: arg_def)
qed

section \<open>Two calls, two requests\<close>

lemma store_put: "store (put r ob h) a = (if a = r then Some ob else store h a)"
  by (simp add: put_def)

lemma next_ref_put: "next_ref (put r ob h) = next_ref h"
  by (simp add: put_def)

lemma store_new: "store (snd (new ob h)) a = (if a = next_ref h then Some ob else store h a)"
  by (simp add: new_def)

lemma next_ref_new: "next_ref (snd (new ob h)) = Suc (next_ref h)"
  by (simp add: new_def)

lemma fst_new: "fst (new ob h) = next_ref h"
  by (simp add: new_def)

lemma fold_search_set_at:
  "store h r = Some (SearchObj s) \<Longrightarrow>
     store (fold (\<lambda>p. search_set_at r (kf p) (vf p)) ps h) a
       = (if a = r then Some (SearchObj (fold (\<lambda>p s. search_set (kf p) (vf p) s) ps s))
          else store h a)
     \<and> next_ref (fold (\<lambda>p. search_set_at r (kf p) (vf p)) ps h) = next_ref h"
proof (induction ps arbitrary: h s)
  case Nil
  then show ?case by simp
next
  case (Cons p ps)
  let ?h = "put r (SearchObj (search_set (kf p) (vf p) s)) h"
  from Cons.prems have step: "search_set_at r (kf p) (vf p) h = ?h"
    by (simp add: search_set_at_def)
  have "store ?h r = Some (SearchObj (search_set (kf p) (vf p) s))"
    by (simp add: store_put)
  from Cons.IH [OF this] show ?case
    by (simp add: step store_put next_ref_put)
qed

lemma fold_headers_append_at:
  "store h r = Some (HeadersObj hs) \<Longrightarrow>
     store (fold (\<lambda>x. headers_append_at r (kf x) (vf x)) xs h) a
       = (if a = r then Some (HeadersObj (fold (\<lambda>x hs. headers_append (kf x) (vf x) hs) xs hs))
          else store h a)
     \<and> next_ref (fold (\<lambda>x. headers_append_at r (kf x) (vf x)) xs h) = next_ref h"
proof (induction xs arbitrary: h hs)
  case Nil
  then show ?case by simp
next
  case (Cons x xs)
  let ?h = "put r (HeadersObj (headers_append (kf x) (vf x) hs)) h"
  from Cons.prems have step: "headers_append_at r (kf x) (vf x) h = ?h"
    by (simp add: headers_append_at_def)
  have "store ?h r = Some (HeadersObj (headers_append (kf x) (vf x) hs))"
    by (simp add: store_put)
  from Cons.IH [OF this] show ?case
    by (simp add: step store_put next_ref_put)
qed

lemma query_phase_store:
  assumes "store h r = Some (SearchObj [])"
  shows "store (query_phase pQuery args r h) a
           = (if a = r then Some (SearchObj (compile_query pQuery args)) else store h a)
         \<and> next_ref (query_phase pQuery args r h) = next_ref h"
proof (cases pQuery)
  case None
  with assms show ?thesis by (simp add: query_phase_def compile_query_def)
next
  case (Some ps)
  from fold_search_set_at [OF assms, of "\<lambda>p. encodeURIComponent (Str (key p))"
         "\<lambda>p. encodeURIComponent (query_value (arg args (parameterIndex p)))"
         "filter (\<lambda>p. truthy (arg args (parameterIndex p))) ps" a] Some
  show ?thesis
    by (simp add: query_phase_def compile_query_def)
qed

lemma headers_phase_store:
  assumes "store h r = Some (HeadersObj (new_Headers defaults))"
  shows "store (headers_phase static pHeader args r h) a
           = (if a = r then Some (HeadersObj (compile_headers defaults static pHeader args))
              else store h a)
         \<and> next_ref (headers_phase static pHeader args r h) = next_ref h"
proof -
  let ?s1 = "case static of
               None \<Rightarrow> new_Headers defaults
             | Some obj \<Rightarrow> fold (\<lambda>kv hs. headers_append (fst kv) (snd kv) hs) obj (new_Headers defaults)"
  let ?h1 = "case static of
               None \<Rightarrow> h
             | Some obj \<Rightarrow> fold (\<lambda>kv. headers_append_at r (fst kv) (snd kv)) obj h"
  have h1: "store ?h1 b = (if b = r then Some (HeadersObj ?s1) else store h b)
            \<and> next_ref ?h1 = next_ref h" for b
  proof (cases static)
    case None
    with assms show ?thesis by simp
  next
    case (Some obj)
    from fold_headers_append_at [OF assms, of fst snd obj b] Some show ?thesis
      by simp
  qed
  show ?thesis
  proof (cases pHeader)
    case None
    with h1 [of a] show ?thesis
      by (simp add: headers_phase_def compile_headers_def Let_def)
  next
    case (Some ps)
    from h1 [of r] have "store ?h1 r = Some (HeadersObj ?s1)"
      by simp
    from fold_headers_append_at [OF this, of key "\<lambda>p. arg args (parameterIndex p)" ps a]
         Some h1 [of a]
    show ?thesis
      by (simp add: headers_phase_def compile_headers_def Let_def)
  qed
qed

lemma compile_new_Inl:
  "compile m template tgt propertyKey d this args = Inl e \<Longrightarrow>
     compile_new m template tgt propertyKey d this args h = (Inl e, h)"
  by (auto simp: compile_new_def compile_def Let_def split: sum.splits)

lemma compile_new_Inr:
  assumes "compile m template tgt propertyKey d this args = Inr req"
  shows "fst (compile_new m template tgt propertyKey d this args h) = Inr (Suc (Suc (next_ref h)))"
    and "next_ref (snd (compile_new m template tgt propertyKey d this args h))
           = Suc (Suc (Suc (next_ref h)))"
    and "store (snd (compile_new m template tgt propertyKey d this args h)) a
           = (if a = Suc (Suc (next_ref h))
              then Some (OptionsObj (method req) (url req) (Suc (next_ref h)) (body req) (next_ref h))
              else if a = Suc (next_ref h) then Some (HeadersObj (headers req))
              else if a = next_ref h then Some (SearchObj (search req))
              else store h a)"
proof -
  let ?n = "next_ref h"
  let ?pq = "tgt (metadataKey propertyKey ''Query'')"
  let ?ph = "tgt (metadataKey propertyKey ''Header'')"
  from assms obtain b where
    b: "compile_body (tgt (metadataKey propertyKey ''Body'')) args = Inr b" and
    req: "req = \<lparr>method = m,
                 url = to_string (getBaseUrl this)
                       @ compile_path (tgt (metadataKey propertyKey ''Path'')) template args,
                 headers = compile_headers (getDefaultHeaders this) (d_headers d) ?ph args,
                 body = b,
                 search = compile_query ?pq args\<rparr>"
    by (auto simp: compile_Inr_iff)
  let ?h1 = "snd (new (SearchObj []) h)"
  let ?h2 = "query_phase ?pq args ?n ?h1"
  let ?h3 = "snd (new (HeadersObj (new_Headers (getDefaultHeaders this))) ?h2)"
  let ?h4 = "headers_phase (d_headers d) ?ph args (Suc ?n) ?h3"
  let ?ob = "OptionsObj m (to_string (getBaseUrl this)
                @ compile_path (tgt (metadataKey propertyKey ''Path'')) template args)
               (Suc ?n) b ?n"
  let ?h5 = "snd (new ?ob ?h4)"
  have eq: "compile_new m template tgt propertyKey d this args h = (Inr (next_ref ?h4), ?h5)"
    and n2: "next_ref ?h2 = Suc ?n"
  proof -
    have 1: "store ?h1 ?n = Some (SearchObj [])" by (simp add: store_new)
    from query_phase_store [OF 1, of ?pq args ?n] show n2: "next_ref ?h2 = Suc ?n"
      by (simp add: next_ref_new)
    show "compile_new m template tgt propertyKey d this args h = (Inr (next_ref ?h4), ?h5)"
      by (simp add: compile_new_def Let_def b split_def fst_new n2)
  qed
  have 1: "store ?h1 ?n = Some (SearchObj [])" by (simp add: store_new)
  note q = query_phase_store [OF 1, of ?pq args]
  have s2: "store ?h2 x = (if x = ?n then Some (SearchObj (compile_query ?pq args)) else store h x)"
    for x
    using q [of x] by (simp add: store_new)
  have n3: "next_ref ?h3 = Suc (Suc ?n)"
    by (simp add: next_ref_new n2)
  have s3: "store ?h3 x = (if x = Suc ?n
                           then Some (HeadersObj (new_Headers (getDefaultHeaders this)))
                           else store ?h2 x)" for x
    by (simp add: store_new n2)
  have 3: "store ?h3 (Suc ?n) = Some (HeadersObj (new_Headers (getDefaultHeaders this)))"
    by (simp add: s3)
  note hd = headers_phase_store [OF 3, of "d_headers d" ?ph args]
  have n4: "next_ref ?h4 = Suc (Suc ?n)"
    using hd [of a] by (simp add: n3)
  have s4: "store ?h4 x = (if x = Suc ?n
                           then Some (HeadersObj (compile_headers (getDefaultHeaders this)
                                                    (d_headers d) ?ph args))
                           else store ?h3 x)" for x
    using hd [of x] by simp
  have s5: "store ?h5 x = (if x = Suc (Suc ?n) then Some ?ob else store ?h4 x)" for x
    by (simp add: store_new n4)
  show "fst (compile_new m template tgt propertyKey d this args h) = Inr (Suc (Suc (next_ref h)))"
    by (simp add: eq n4)
  show "next_ref (snd (compile_new m template tgt propertyKey d this args h))
           = Suc (Suc (Suc (next_ref h)))"
    by (simp add: eq next_ref_new n4)
  have "store ?h5 a
           = (if a = Suc (Suc (next_ref h))
              then Some (OptionsObj (method req) (url req) (Suc (next_ref h)) (body req) (next_ref h))
              else if a = Suc (next_ref h) then Some (HeadersObj (headers req))
              else if a = next_ref h then Some (SearchObj (search req))
              else store h a)"
    unfolding s5 s4 s3 s2 by (simp add: req)
  then show "store (snd (compile_new m template tgt propertyKey d this args h)) a
           = (if a = Suc (Suc (next_ref h))
              then Some (OptionsObj (method req) (url req) (Suc (next_ref h)) (body req) (next_ref h))
              else if a = Suc (next_ref h) then Some (HeadersObj (headers req))
              else if a = next_ref h then Some (SearchObj (search req))
              else store h a)"
    by (simp only: eq snd_conv)
qed


lemma compile_new_result:
  assumes "compile_new m template tgt propertyKey d this args h = (Inr r, h')"
  shows "\<exists>req. compile m template tgt propertyKey d this args = Inr req
           \<and> r = Suc (Suc (next_ref h))
           \<and> next_ref h' = Suc (Suc (Suc (next_ref h)))
           \<and> (\<forall>a. store h' a
                 = (if a = Suc (Suc (next_ref h))
                    then Some (OptionsObj (method req) (url req) (Suc (next_ref h)) (body req)
                                 (next_ref h))
                    else if a = Suc (next_ref h) then Some (HeadersObj (headers req))
                    else if a = next_ref h then Some (SearchObj (search req))
                    else store h a))"
proof (cases "compile m template tgt propertyKey d this args")
  case (Inl e)
  from compile_new_Inl [OF this, of h] assms show ?thesis by simp
next
  case (Inr req)
  note f = compile_new_Inr [OF Inr, of h]
  from f(1) assms have "r = Suc (Suc (next_ref h))" by simp
  moreover from f(2) assms have "next_ref h' = Suc (Suc (Suc (next_ref h)))" by simp
  moreover from f(3) assms have "store h' a
           = (if a = Suc (Suc (next_ref h))
              then Some (OptionsObj (method req) (url req) (Suc (next_ref h)) (body req) (next_ref h))
              else if a = Suc (next_ref h) then Some (HeadersObj (headers req))
              else if a = next_ref h then Some (SearchObj (search req))
              else store h a)" for a by simp
  ultimately show ?thesis using Inr by blast
qed

text \<open>
  Claim C9. Two calls of the same method with the same arguments, one after the other,
  return two different options objects, made of disjoint sets of objects, that read as
  the same request, field for field, which is the request \<open>compile\<close> gives. The second
  call leaves the first request as it was, and whatever is done afterwards to the
  objects of the first request leaves the second request as it is.
\<close>

theorem compile_twice_equal_and_separate:
  assumes "compile_new m template tgt propertyKey d this args h = (Inr r1, h1)"
      and "compile_new m template tgt propertyKey d this args h1 = (Inr r2, h2)"
  shows "r1 \<noteq> r2
         \<and> parts h2 r1 \<inter> parts h2 r2 = {}
         \<and> read_request h2 r1 = read_request h2 r2
         \<and> map_option Inr (read_request h2 r2)
             = Some (compile m template tgt propertyKey d this args)
         \<and> read_request h2 r1 = read_request h1 r1
         \<and> (\<forall>h'. (\<forall>a. a \<notin> parts h2 r1 \<longrightarrow> store h' a = store h2 a)
                \<longrightarrow> read_request h' r2 = read_request h2 r2)"
proof -
  let ?n = "next_ref h"
  from compile_new_result [OF assms(1)] obtain req where
    c: "compile m template tgt propertyKey d this args = Inr req" and
    r1: "r1 = Suc (Suc ?n)" and
    n1: "next_ref h1 = Suc (Suc (Suc ?n))" and
    s1: "\<And>a. store h1 a
           = (if a = Suc (Suc ?n)
              then Some (OptionsObj (method req) (url req) (Suc ?n) (body req) ?n)
              else if a = Suc ?n then Some (HeadersObj (headers req))
              else if a = ?n then Some (SearchObj (search req))
              else store h a)"
    by blast
  from compile_new_result [OF assms(2)] obtain req' where
    c': "compile m template tgt propertyKey d this args = Inr req'" and
    r2: "r2 = Suc (Suc (next_ref h1))" and
    s2: "\<And>a. store h2 a
           = (if a = Suc (Suc (next_ref h1))
              then Some (OptionsObj (method req') (url req') (Suc (next_ref h1)) (body req')
                           (next_ref h1))
              else if a = Suc (next_ref h1) then Some (HeadersObj (headers req'))
              else if a = next_ref h1 then Some (SearchObj (search req'))
              else store h1 a)"
    by blast
  from c c' have req': "req' = req" by simp
  have full: "req = \<lparr>method = method req, url = url req, headers = headers req,
                      body = body req, search = search req\<rparr>"
    by simp
  have p1: "parts h2 r1 = {Suc (Suc ?n), Suc ?n, ?n}"
    by (simp add: parts_def s2 s1 r1 n1)
  have p2: "parts h2 r2 = {Suc (Suc (Suc (Suc (Suc ?n)))), Suc (Suc (Suc (Suc ?n))), Suc (Suc (Suc ?n))}"
    by (simp add: parts_def s2 r2 n1)
  have v1: "read_request h1 r1 = Some req"
    using full by (simp add: read_request_def s1 r1)
  have v21: "read_request h2 r1 = Some req"
    using full by (simp add: read_request_def s2 s1 r1 n1)
  have v22: "read_request h2 r2 = Some req"
    using full by (simp add: read_request_def s2 r2 n1 req')
  have sep: "read_request h' r2 = read_request h2 r2"
    if "\<forall>a. a \<notin> parts h2 r1 \<longrightarrow> store h' a = store h2 a" for h'
  proof -
    from that p1 have same: "store h' a = store h2 a"
      if "a \<noteq> Suc (Suc ?n)" "a \<noteq> Suc ?n" "a \<noteq> ?n" for a
      using that by simp
    have e1: "store h' r2 = store h2 r2"
      and e2: "store h' (Suc (next_ref h1)) = store h2 (Suc (next_ref h1))"
      and e3: "store h' (next_ref h1) = store h2 (next_ref h1)"
      by (rule same; simp add: r2 n1)+
    have o: "store h2 r2 = Some (OptionsObj (method req') (url req') (Suc (next_ref h1)) (body req')
                           (next_ref h1))"
      by (simp add: s2 r2)
    have o2: "store h2 (Suc (next_ref h1)) = Some (HeadersObj (headers req'))"
      and o3: "store h2 (next_ref h1) = Some (SearchObj (search req'))"
      by (simp_all add: s2)
    show ?thesis
      by (simp add: read_request_def e1 e2 e3 o o2 o3)
  qed
  from r1 r2 n1 have distinct: "r1 \<noteq> r2" by simp
  from p1 p2 have disjoint: "parts h2 r1 \<inter> parts h2 r2 = {}" by simp
  have equal: "read_request h2 r1 = read_request h2 r2"
    by (simp add: v21 v22)
  have pure: "map_option Inr (read_request h2 r2)
                = Some (compile m template tgt propertyKey d this args)"
    by (simp add: v22 c)
  have kept: "read_request h2 r1 = read_request h1 r1"
    by (simp add: v21 v1)
  from distinct disjoint equal pure kept sep show ?thesis
    by blast
qed

theorem compile_twice_equal_and_separate_witness:
  "(2 :: ref) \<noteq> 5
   \<and> parts (snd (token_call (snd (token_call heap0)))) 2
       \<inter> parts (snd (token_call (snd (token_call heap0)))) 5 = {}
   \<and> read_request (snd (token_call (snd (token_call heap0)))) 2
       = read_request (snd (token_call (snd (token_call heap0)))) 5
   \<and> read_request (snd (token_call (snd (token_call heap0)))) 5
       = Some \<lparr>method = Get, url = ''https://api.test/users/42'',
               headers = [(''accept'', ''Accept'', [Str ''application/json'']),
                          (''x-token'', ''X-Token'', [Str ''t''])],
               body = Null, search = []\<rparr>
   \<and> read_request (put 1 (HeadersObj []) (snd (token_call (snd (token_call heap0))))) 5
       = read_request (snd (token_call (snd (token_call heap0)))) 5"
proof -
  let ?tgt = "Header ''X-Token'' ''getUser'' 1 (Path ''id'' ''getUser'' 0 Map.empty)"
  let ?d = "\<lparr>d_headers = Some [(''Accept'', Str ''application/json'')], isJSON = True\<rparr>"
  let ?cl = "BaseUrl ''https://api.test'' (base_client (\<lambda>r w. ([], w)) (\<lambda>x. x))
               :: (unit, unit) RESTClient"
  let ?args = "[Str ''42'', Str ''t'']"
  let ?req = "\<lparr>method = Get, url = ''https://api.test/users/42'',
               headers = [(''accept'', ''Accept'', [Str ''application/json'']),
                          (''x-token'', ''X-Token'', [Str ''t''])],
               body = Null, search = []\<rparr>"
  let ?h1 = "snd (token_call heap0)"
  let ?h2 = "snd (token_call ?h1)"
  have c: "compile Get ''/users/{id}'' ?tgt ''getUser'' ?d ?cl ?args = Inr ?req"
    by code_simp
  note f0 = compile_new_Inr [OF c, where h = heap0, folded token_call_def]
  have n1: "next_ref ?h1 = 3"
    using f0(2) by (simp add: heap0_def)
  have a1: "token_call heap0 = (Inr 2, ?h1)"
    using f0(1) by (simp add: heap0_def prod_eq_iff)
  note f1 = compile_new_Inr [OF c, where h = ?h1, folded token_call_def]
  have a2: "token_call ?h1 = (Inr 5, ?h2)"
    using f1(1) by (simp add: n1 prod_eq_iff)
  note t = compile_twice_equal_and_separate
             [OF a1 [unfolded token_call_def] a2 [unfolded token_call_def], folded token_call_def]
  have s1: "store ?h1 2 = Some (OptionsObj Get ''https://api.test/users/42'' 1 Null 0)"
    using f0(3) [of 2] by (simp add: heap0_def)
  have s2: "store ?h2 2 = store ?h1 2"
    using f1(3) [of 2] by (simp add: n1)
  have p: "parts ?h2 2 = {2, 1, 0}"
    by (simp add: parts_def s2 s1)
  have untouched: "\<forall>a. a \<notin> parts ?h2 2
                     \<longrightarrow> store (put 1 (HeadersObj []) ?h2) a = store ?h2 a"
    by (simp add: p store_put)
  from t untouched have 5: "read_request (put 1 (HeadersObj []) ?h2) 5 = read_request ?h2 5"
    by blast
  from t c have 4: "read_request ?h2 5 = Some ?req"
    by auto
  from t 4 5 show ?thesis
    by blast
qed

end
